theory Spec2Isabelle
  imports Complex_Main
begin

section \<open>Data model\<close>

text \<open>
  The circuit breaker of \<^verbatim>\<open>circuit.js\<close> (the \<^verbatim>\<open>Circuit\<close> object and the two
  module-level dictionaries) and the executor of \<^verbatim>\<open>command.js\<close>
  (\<^verbatim>\<open>Command.prototype.execute\<close> and \<^verbatim>\<open>resumeWithFallback\<close>).

  JavaScript numbers are modelled exactly: the call counters, which start at 0 and are only
  incremented or reset, are naturals; the two thresholds are rationals; timestamps and the
  sleep window are whole milliseconds (integers in the range of \<^verbatim>\<open>Date\<close>). The
  value \<^verbatim>\<open>undefined\<close>/\<^verbatim>\<open>null\<close> of an optional field is \<open>None\<close>.
\<close>

datatype CircuitStates = OPEN | HALF_OPEN | CLOSED

text \<open>
  The object written by \<^verbatim>\<open>finishWorkflow\<close> into \<^verbatim>\<open>CircuitDataDictionary\<close>,
  and the \<^verbatim>\<open>Circuit\<close> object, which has the same four fields and five more.
\<close>

record Stats =
  totalCalls :: nat
  errorCalls :: nat
  ongoingSleepWindow :: "int option"
  state :: CircuitStates

record Circuit = Stats +
  commandkey :: string
  requestVolumeThreshold :: rat
  errorThreshold :: rat
  sleepWindowInMilliseconds :: int
  forceOpen :: bool

text \<open>
  The per-key configuration module (\<^verbatim>\<open>IndividualConfig\<close>): each export maps a command key
  to what \<^verbatim>\<open>Joi.attempt\<close> returns for the environment variable of that key, a number or
  \<^verbatim>\<open>undefined\<close>, and a boolean (default \<^verbatim>\<open>false\<close>) for \<^verbatim>\<open>forceOpen\<close>.
\<close>

record IndividualConfig =
  cfg_forceOpen :: "string \<Rightarrow> bool"
  cfg_errorPercentageThreshold :: "string \<Rightarrow> rat option"
  cfg_requestVolumeThreshold :: "string \<Rightarrow> rat option"
  cfg_sleepWindowInMilliseconds :: "string \<Rightarrow> int option"
  cfg_timeout :: "string \<Rightarrow> int option"

text \<open>
  Errors: whatever the action rejects with, bluebird's \<^verbatim>\<open>Promise.TimeoutError\<close>,
  the result of \<^verbatim>\<open>Boom.gatewayTimeout\<close>, and \<^verbatim>\<open>CircuitOpenException\<close> with its
  command key. A promise settles as resolved with a result or rejected with a reason; the
  reason \<open>None\<close> is a falsy one (\<^verbatim>\<open>null\<close>, \<^verbatim>\<open>undefined\<close>).
\<close>

datatype 'e error = UserError 'e | TimeoutError | GatewayTimeout | CircuitOpenException string

datatype ('r, 'e) settled = Resolved 'r | Rejected "'e error option"

text \<open>
  The calls the executor makes to its collaborators, in the order it makes them; each carries
  the arguments of the call. \<open>DictSet\<close> is \<^verbatim>\<open>CircuitDataDictionary.set\<close>.
\<close>

datatype ('a, 'e) event =
    is_ActionCalled: ActionCalled string 'a
  | is_HandlerCalled: HandlerCalled string "'e error option"
  | is_FilterCalled: FilterCalled string "'e error option" 'a
  | is_FallbackCalled: FallbackCalled string "'e error option" 'a
  | is_LoggerWarn: LoggerWarn "'e error" "string list" "string option"
  | is_DictSet: DictSet string Stats

text \<open>
  The state of the module: the two dictionaries, and the calls made so far. A
  \<^verbatim>\<open>Circuit\<close> object is shared by reference; the model keeps it in the instances
  dictionary under its key and writes every field assignment back there.
\<close>

record ('a, 'e) World =
  CircuitInstancesDictionary :: "string \<rightharpoonup> Circuit"
  CircuitDataDictionary :: "string \<rightharpoonup> Stats"
  events :: "('a, 'e) event list"

text \<open>
  The options of a command (\<^verbatim>\<open>this.opts\<close>). The command is fully configured: its action
  is set. \<open>action cmd params\<close> is how \<^verbatim>\<open>action(...params).timeout(timeout)\<close>
  settles: with the action's result, with its rejection, or with \<open>Rejected (Some TimeoutError)\<close>
  when the deadline fires first. The callbacks are total functions: they return.
\<close>

record ('a, 'r, 'e) Command =
  key :: string
  traceId :: "string option"
  timeout :: int
  opts_requestVolumeThreshold :: rat
  opts_errorThreshold :: rat
  sleepWindowInMillis :: int
  fallback :: "('e error option \<Rightarrow> 'a \<Rightarrow> ('r, 'e) settled) option"
  errorFilter :: "('e error option \<Rightarrow> 'a \<Rightarrow> bool) option"
  errorHandler :: "('e error option \<Rightarrow> 'e error option) option"
  action :: "'a \<Rightarrow> ('r, 'e) settled"
  isLogEnable :: bool

section \<open>The circuit\<close>

text \<open>
  \<^verbatim>\<open>x || y\<close> where \<open>x\<close> is a number or \<^verbatim>\<open>undefined\<close>: \<open>y\<close> when \<open>x\<close> is
  \<^verbatim>\<open>undefined\<close> or 0, the two falsy values.
\<close>

definition js_or :: "'n::zero option \<Rightarrow> 'n \<Rightarrow> 'n" where
  "js_or x y = (case x of None \<Rightarrow> y | Some v \<Rightarrow> if v = 0 then y else v)"

text \<open>The constructor \<^verbatim>\<open>Circuit\<close>.\<close>

definition new_Circuit :: "IndividualConfig \<Rightarrow> string \<Rightarrow> rat \<Rightarrow> rat \<Rightarrow> int \<Rightarrow> Circuit" where
  "new_Circuit cfg commandKey rvt ept sw =
     \<lparr> totalCalls = 0,
       errorCalls = 0,
       ongoingSleepWindow = None,
       state = CLOSED,
       commandkey = commandKey,
       requestVolumeThreshold = js_or (cfg_requestVolumeThreshold cfg commandKey) rvt,
       errorThreshold = js_or (cfg_errorPercentageThreshold cfg commandKey) ept,
       sleepWindowInMilliseconds = js_or (cfg_sleepWindowInMilliseconds cfg commandKey) sw,
       forceOpen = (cfg_forceOpen cfg commandKey \<or> False) \<rparr>"

text \<open>
  \<^verbatim>\<open>isSleepWindowOver\<close>: the circuit's own \<^verbatim>\<open>ongoingSleepWindow\<close> is truthy (set and
  not 0) and, as a date, earlier than the current time.
\<close>

definition isSleepWindowOver :: "int \<Rightarrow> Circuit \<Rightarrow> bool" where
  "isSleepWindowOver now circuit =
     (case ongoingSleepWindow circuit of
        None \<Rightarrow> False
      | Some val \<Rightarrow> val \<noteq> 0 \<and> val < now)"

text \<open>
  \<^verbatim>\<open>reloadStats\<close>, given the data dictionary and the current time. It reads the snapshot
  stored under the circuit's key, and tests the sleep window of the circuit object itself
  before it copies the snapshot's state and sleep window.
\<close>

definition reloadStats :: "int \<Rightarrow> (string \<rightharpoonup> Stats) \<Rightarrow> Circuit \<Rightarrow> Circuit" where
  "reloadStats now dict this =
     (case dict (commandkey this) of
        None \<Rightarrow> this
      | Some stats \<Rightarrow>
          (let this1 = this\<lparr>totalCalls := totalCalls stats, errorCalls := errorCalls stats\<rparr>
           in if isSleepWindowOver now this1
              then this1\<lparr>ongoingSleepWindow := None, state := HALF_OPEN\<rparr>
              else this1\<lparr>state := state stats, ongoingSleepWindow := ongoingSleepWindow stats\<rparr>))"

definition allowExecution :: "Circuit \<Rightarrow> bool" where
  "allowExecution this = (\<not> forceOpen this \<and> (state this = CLOSED \<or> state this = HALF_OPEN))"

definition isHalfOpen :: "Circuit \<Rightarrow> bool" where
  "isHalfOpen this = (state this = HALF_OPEN)"

definition registerCall :: "Circuit \<Rightarrow> Circuit" where
  "registerCall this = this\<lparr>totalCalls := totalCalls this + 1\<rparr>"

definition markSuccess :: "Circuit \<Rightarrow> Circuit" where
  "markSuccess this = this\<lparr>state := CLOSED, totalCalls := 0, errorCalls := 0\<rparr>"

text \<open>The object \<^verbatim>\<open>opts\<close> that \<^verbatim>\<open>finishWorkflow\<close> builds.\<close>

definition snapshot :: "Circuit \<Rightarrow> Stats" where
  "snapshot this =
     \<lparr> totalCalls = totalCalls this,
       errorCalls = errorCalls this,
       ongoingSleepWindow = ongoingSleepWindow this,
       state = state this \<rparr>"

definition emit :: "('a, 'e) event \<Rightarrow> ('a, 'e) World \<Rightarrow> ('a, 'e) World" where
  "emit ev w = w\<lparr>events := events w @ [ev]\<rparr>"

definition finishWorkflow :: "Circuit \<Rightarrow> ('a, 'e) World \<Rightarrow> ('a, 'e) World" where
  "finishWorkflow this w =
     emit (DictSet (commandkey this) (snapshot this))
       (w\<lparr>CircuitDataDictionary := (CircuitDataDictionary w)(commandkey this \<mapsto> snapshot this)\<rparr>)"

text \<open>
  \<^verbatim>\<open>errorCalls / totalCalls * 100\<close>. Division by zero is written out: JavaScript gives
  \<^verbatim>\<open>NaN\<close> for 0/0 and \<^verbatim>\<open>Infinity\<close> for a positive count over 0, and compares them
  with a threshold as false and true.
\<close>

datatype number = NaN | Infinity | Finite rat

definition errorPercentageOf :: "nat \<Rightarrow> nat \<Rightarrow> number" where
  "errorPercentageOf errs calls =
     (if calls = 0 then (if errs = 0 then NaN else Infinity)
      else Finite (of_nat errs / of_nat calls * 100))"

fun number_ge :: "number \<Rightarrow> rat \<Rightarrow> bool" where
  "number_ge NaN t = False"
| "number_ge Infinity t = True"
| "number_ge (Finite x) t = (x \<ge> t)"

text \<open>
  The field assignments of \<^verbatim>\<open>registerErrorAndCalculateMetrics\<close>, at the time
  \<^verbatim>\<open>Date.now()\<close> returns; the function takes no parameter.
\<close>

definition registerError :: "int \<Rightarrow> Circuit \<Rightarrow> Circuit" where
  "registerError now this =
     (let this1 = this\<lparr>errorCalls := errorCalls this + 1\<rparr>;
          shouldCheckHealth = (of_nat (totalCalls this1) \<ge> requestVolumeThreshold this1);
          errorPercentage = errorPercentageOf (errorCalls this1) (totalCalls this1)
      in if shouldCheckHealth \<and> number_ge errorPercentage (errorThreshold this1)
         then this1\<lparr>state := OPEN,
                    ongoingSleepWindow := Some (now + sleepWindowInMilliseconds this1)\<rparr>
         else this1)"

text \<open>
  The in-place update of the circuit object registered under a key.
\<close>

definition store :: "string \<Rightarrow> Circuit \<Rightarrow> ('a, 'e) World \<Rightarrow> ('a, 'e) World" where
  "store k c w = w\<lparr>CircuitInstancesDictionary := (CircuitInstancesDictionary w)(k \<mapsto> c)\<rparr>"

definition registerErrorAndCalculateMetrics ::
    "int \<Rightarrow> string \<Rightarrow> Circuit \<Rightarrow> ('a, 'e) World \<Rightarrow> ('a, 'e) World" where
  "registerErrorAndCalculateMetrics now k this w =
     (let this' = registerError now this
      in finishWorkflow this' (store k this' w))"

text \<open>\<^verbatim>\<open>getInstance\<close>: the circuit it returns, and the world with that circuit registered.\<close>

definition getInstance ::
    "IndividualConfig \<Rightarrow> int \<Rightarrow> string \<Rightarrow> rat \<Rightarrow> rat \<Rightarrow> int \<Rightarrow> ('a, 'e) World
       \<Rightarrow> Circuit \<times> ('a, 'e) World" where
  "getInstance cfg now commandKey rvt ept sw w =
     (case CircuitInstancesDictionary w commandKey of
        Some instance \<Rightarrow>
          (let instance' = reloadStats now (CircuitDataDictionary w) instance
           in (instance', store commandKey instance' w))
      | None \<Rightarrow>
          (let circuit = new_Circuit cfg commandKey rvt ept sw
           in (circuit, store commandKey circuit w)))"

section \<open>The executor\<close>

definition TAG :: string where
  "TAG = ''circuit-breaker''"

text \<open>
  \<^verbatim>\<open>resumeWithFallback\<close>: what the returned promise settles with, and the world after.
  What the fallback returns is returned as it is: \<open>Resolved\<close> stands for a value or a promise
  that resolves, \<open>Rejected\<close> for a promise that rejects or an exception thrown.
\<close>

definition resumeWithFallback ::
    "'e error option \<Rightarrow> ('a, 'r, 'e) Command \<Rightarrow> 'a \<Rightarrow> ('a, 'e) World
       \<Rightarrow> ('r, 'e) settled \<times> ('a, 'e) World" where
  "resumeWithFallback err command params w =
     (let w1 = (case err of
                  Some e \<Rightarrow>
                    if isLogEnable command
                    then emit (LoggerWarn e [TAG, key command] (traceId command)) w
                    else w
                | None \<Rightarrow> w)
      in case fallback command of
           Some f \<Rightarrow> (f err params, emit (FallbackCalled (key command) err params) w1)
         | None \<Rightarrow>
             (Rejected (Some (case err of
                                Some e \<Rightarrow> e
                              | None \<Rightarrow> CircuitOpenException (key command))), w1))"

text \<open>
  The \<^verbatim>\<open>.then\<close> callback of \<^verbatim>\<open>execute\<close>, run when the action's promise resolves;
  \<open>circuit\<close> is the object \<^verbatim>\<open>this.opts.circuit\<close> as it is at that moment.
\<close>

definition onFulfilled ::
    "('a, 'r, 'e) Command \<Rightarrow> Circuit \<Rightarrow> 'r \<Rightarrow> ('a, 'e) World
       \<Rightarrow> ('r, 'e) settled \<times> ('a, 'e) World" where
  "onFulfilled cmd circuit result w =
     (let circuit' = (if isHalfOpen circuit then markSuccess circuit else circuit)
      in (Resolved result, finishWorkflow circuit' (store (key cmd) circuit' w)))"

text \<open>
  The \<^verbatim>\<open>.catch\<close> callback, in three parts: the value of the variable \<^verbatim>\<open>exception\<close>
  once the handler has run (the handler is called with \<^verbatim>\<open>err\<close>), the result of the
  filter, and the callback itself.
\<close>

definition exceptionOf :: "('a, 'r, 'e) Command \<Rightarrow> 'e error option \<Rightarrow> 'e error option" where
  "exceptionOf cmd err =
     (let exception = err;
          exception = (if exception = Some TimeoutError then Some GatewayTimeout else exception)
      in case errorHandler cmd of
           Some h \<Rightarrow> h err
         | None \<Rightarrow> exception)"

definition isFiltered :: "('a, 'r, 'e) Command \<Rightarrow> 'e error option \<Rightarrow> 'a \<Rightarrow> bool" where
  "isFiltered cmd exception params =
     (case errorFilter cmd of
        Some f \<Rightarrow> f exception params
      | None \<Rightarrow> False)"

definition onRejected ::
    "int \<Rightarrow> ('a, 'r, 'e) Command \<Rightarrow> Circuit \<Rightarrow> 'e error option \<Rightarrow> 'a \<Rightarrow> ('a, 'e) World
       \<Rightarrow> ('r, 'e) settled \<times> ('a, 'e) World" where
  "onRejected now cmd circuit err params w =
     (let exception = exceptionOf cmd err;
          w1 = (case errorHandler cmd of
                  Some h \<Rightarrow> emit (HandlerCalled (key cmd) err) w
                | None \<Rightarrow> w);
          w2 = (case errorFilter cmd of
                  Some f \<Rightarrow> emit (FilterCalled (key cmd) exception params) w1
                | None \<Rightarrow> w1)
      in if isFiltered cmd exception params
         then (Rejected exception, finishWorkflow circuit w2)
         else resumeWithFallback exception cmd params
                (registerErrorAndCalculateMetrics now (key cmd) circuit w2))"

text \<open>
  \<^verbatim>\<open>execute\<close> up to the point where it returns: either the action has been called and its
  promise is pending, with the two callbacks attached, or the call has not been admitted and
  the result of \<^verbatim>\<open>resumeWithFallback\<close> is returned.
\<close>

datatype ('r, 'e) started = Pending Circuit | Returned "('r, 'e) settled"

definition execute_begin ::
    "IndividualConfig \<Rightarrow> int \<Rightarrow> ('a, 'r, 'e) Command \<Rightarrow> 'a \<Rightarrow> ('a, 'e) World
       \<Rightarrow> ('r, 'e) started \<times> ('a, 'e) World" where
  "execute_begin cfg now cmd params w =
     (case getInstance cfg now (key cmd) (opts_requestVolumeThreshold cmd)
             (opts_errorThreshold cmd) (sleepWindowInMillis cmd) w of
        (circuit0, w0) \<Rightarrow>
          (let circuit = registerCall circuit0;
               w1 = store (key cmd) circuit w0
           in if allowExecution circuit
              then (Pending circuit, emit (ActionCalled (key cmd) params) w1)
              else (case resumeWithFallback None cmd params (finishWorkflow circuit w1) of
                      (out, w2) \<Rightarrow> (Returned out, w2))))"

text \<open>The callback that runs when the pending promise settles, at time \<open>now\<close>.\<close>

definition settle ::
    "int \<Rightarrow> ('a, 'r, 'e) Command \<Rightarrow> Circuit \<Rightarrow> 'a \<Rightarrow> ('r, 'e) settled \<Rightarrow> ('a, 'e) World
       \<Rightarrow> ('r, 'e) settled \<times> ('a, 'e) World" where
  "settle now cmd circuit params s w =
     (case s of
        Resolved result \<Rightarrow> onFulfilled cmd circuit result w
      | Rejected err \<Rightarrow> onRejected now cmd circuit err params w)"

text \<open>
  One whole \<^verbatim>\<open>execute\<close> with nothing in between: it starts at \<open>now\<close> and its promise
  settles at \<open>now'\<close>.
\<close>

definition execute ::
    "IndividualConfig \<Rightarrow> int \<Rightarrow> int \<Rightarrow> ('a, 'r, 'e) Command \<Rightarrow> 'a \<Rightarrow> ('a, 'e) World
       \<Rightarrow> ('r, 'e) settled \<times> ('a, 'e) World" where
  "execute cfg now now' cmd params w =
     (case execute_begin cfg now cmd params w of
        (Returned out, w1) \<Rightarrow> (out, w1)
      | (Pending circuit, w1) \<Rightarrow> settle now' cmd circuit params (action cmd params) w1)"

text \<open>The calls made between two worlds.\<close>

definition calls_since :: "('a, 'e) World \<Rightarrow> ('a, 'e) World \<Rightarrow> ('a, 'e) event list" where
  "calls_since w w' = drop (length (events w)) (events w')"

text \<open>
  The setters of the three thresholds (\<^verbatim>\<open>Command.prototype.requestVolumeThreshold\<close>,
  \<^verbatim>\<open>errorThresholdPercentage\<close>, \<^verbatim>\<open>sleepWindowInMilliseconds\<close>).
\<close>

definition Command_requestVolumeThreshold ::
    "rat \<Rightarrow> ('a, 'r, 'e) Command \<Rightarrow> ('a, 'r, 'e) Command" where
  "Command_requestVolumeThreshold requestVolume cmd =
     cmd\<lparr>opts_requestVolumeThreshold := requestVolume\<rparr>"

definition Command_errorThresholdPercentage ::
    "rat \<Rightarrow> ('a, 'r, 'e) Command \<Rightarrow> ('a, 'r, 'e) Command" where
  "Command_errorThresholdPercentage threshold cmd = cmd\<lparr>opts_errorThreshold := threshold\<rparr>"

definition Command_sleepWindowInMilliseconds ::
    "int \<Rightarrow> ('a, 'r, 'e) Command \<Rightarrow> ('a, 'r, 'e) Command" where
  "Command_sleepWindowInMilliseconds sleepWindow cmd = cmd\<lparr>sleepWindowInMillis := sleepWindow\<rparr>"

section \<open>Sequences of executions\<close>

text \<open>
  A sequential run: each \<^verbatim>\<open>execute\<close> is awaited before the next one starts. A call is
  the configuration module at that moment, the time it starts, the time its promise settles,
  the command and its parameters.
\<close>

type_synonym ('a, 'r, 'e) call = "IndividualConfig \<times> int \<times> int \<times> ('a, 'r, 'e) Command \<times> 'a"

fun run :: "('a, 'r, 'e) call list \<Rightarrow> ('a, 'e) World \<Rightarrow> ('a, 'e) World" where
  "run [] w = w"
| "run ((cfg, now, now', cmd, params) # cs) w = run cs (snd (execute cfg now now' cmd params w))"

text \<open>What each call of a sequential run settles with, and the calls it made.\<close>

fun executeEach ::
    "('a, 'r, 'e) call list \<Rightarrow> ('a, 'e) World \<Rightarrow> (('r, 'e) settled \<times> ('a, 'e) event list) list" where
  "executeEach [] w = []"
| "executeEach ((cfg, now, now', cmd, params) # cs) w =
     (case execute cfg now now' cmd params w of
        (out, w') \<Rightarrow> (out, calls_since w w') # executeEach cs w')"

definition summary ::
    "('r, 'e) settled \<times> ('a, 'e) event list \<Rightarrow> ('r, 'e) settled \<times> nat \<times> nat" where
  "summary r =
     (fst r, length (filter is_ActionCalled (snd r)), length (filter is_FallbackCalled (snd r)))"


text \<open>
  Interleaved executions: an \<^verbatim>\<open>execute\<close> starts, or the pending promise of a command
  settles and its callback runs on the circuit object registered under the command's key.
\<close>

datatype ('a, 'r, 'e) step =
    Begin IndividualConfig int "('a, 'r, 'e) Command" 'a
  | Settle int "('a, 'r, 'e) Command" 'a "('r, 'e) settled"

fun apply_step :: "('a, 'r, 'e) step \<Rightarrow> ('a, 'e) World \<Rightarrow> ('a, 'e) World" where
  "apply_step (Begin cfg now cmd params) w = snd (execute_begin cfg now cmd params w)"
| "apply_step (Settle now cmd params s) w =
     (case CircuitInstancesDictionary w (key cmd) of
        None \<Rightarrow> w
      | Some circuit \<Rightarrow> snd (settle now cmd circuit params s w))"

fun run_steps :: "('a, 'r, 'e) step list \<Rightarrow> ('a, 'e) World \<Rightarrow> ('a, 'e) World" where
  "run_steps [] w = w"
| "run_steps (s # ss) w = run_steps ss (apply_step s w)"


section \<open>Concrete worlds, configurations and commands\<close>

text \<open>The module as loaded: both dictionaries are empty.\<close>

definition emptyWorld :: "('a, 'e) World" where
  "emptyWorld =
     \<lparr> CircuitInstancesDictionary = Map.empty, CircuitDataDictionary = Map.empty, events = [] \<rparr>"

text \<open>An environment with no variable set; one that forces a key open; one that sets the
  request volume threshold of a key to 0.\<close>

definition noOverrides :: IndividualConfig where
  "noOverrides =
     \<lparr> cfg_forceOpen = (\<lambda>k. False),
       cfg_errorPercentageThreshold = (\<lambda>k. None),
       cfg_requestVolumeThreshold = (\<lambda>k. None),
       cfg_sleepWindowInMilliseconds = (\<lambda>k. None),
       cfg_timeout = (\<lambda>k. None) \<rparr>"

definition forcedOpen :: "string \<Rightarrow> IndividualConfig" where
  "forcedOpen k = noOverrides\<lparr>cfg_forceOpen := (\<lambda>k'. k' = k)\<rparr>"

definition zeroVolume :: "string \<Rightarrow> IndividualConfig" where
  "zeroVolume k =
     noOverrides\<lparr>cfg_requestVolumeThreshold := (\<lambda>k'. if k' = k then Some 0 else None)\<rparr>"

text \<open>
  The command of the test \<^verbatim>\<open>should wait request threshold to check circuit overall health\<close>:
  the action always rejects, the fallback always resolves.
\<close>

definition failingCommand :: "string \<Rightarrow> rat \<Rightarrow> rat \<Rightarrow> int \<Rightarrow> (unit, string, string) Command" where
  "failingCommand k rvt ept sw =
     \<lparr> key = k,
       traceId = None,
       timeout = 1000,
       opts_requestVolumeThreshold = rvt,
       opts_errorThreshold = ept,
       sleepWindowInMillis = sw,
       fallback = Some (\<lambda>err params. Resolved ''FALLBACK''),
       errorFilter = None,
       errorHandler = None,
       action = (\<lambda>params. Rejected (Some (UserError ''FAIL''))),
       isLogEnable = False \<rparr>"



text \<open>
  A world in which a probe is in flight: the circuit of key \<open>k\<close> was opened by a failure at
  time 1 with a sleep window of 10 ms, and an \<^verbatim>\<open>execute\<close> that started at time 20 has
  called the action and not settled yet.
\<close>

definition probePending :: "(unit, string) World" where
  "probePending =
     run_steps
       [Begin noOverrides 1 (failingCommand ''k'' 0 50 10) (),
        Settle 1 (failingCommand ''k'' 0 50 10) () (Rejected (Some (UserError ''FAIL''))),
        Begin noOverrides 20 (failingCommand ''k'' 0 50 10) ()]
       emptyWorld"

text \<open>
  The scenario with requestVolumeThreshold 80 and errorThresholdPercentage 50: the calls, one
  per pair of start and settle times, and the circuit of the key after \<open>j\<close> calls while it is
  closed, and after \<open>j\<close> calls once it has been opened with the expiry \<open>x\<close>.
\<close>

definition scenario ::
    "IndividualConfig \<Rightarrow> string \<Rightarrow> int \<Rightarrow> (int \<times> int) list \<Rightarrow> (unit, string, string) call list" where
  "scenario cfg k sw ts = map (\<lambda>(now, now'). (cfg, now, now', failingCommand k 80 50 sw, ())) ts"

definition closedAfter :: "string \<Rightarrow> int \<Rightarrow> nat \<Rightarrow> Circuit" where
  "closedAfter k sw j = (new_Circuit noOverrides k 80 50 sw)\<lparr>totalCalls := j, errorCalls := j\<rparr>"

definition openAfter :: "string \<Rightarrow> int \<Rightarrow> int \<Rightarrow> nat \<Rightarrow> Circuit" where
  "openAfter k sw x j =
     (new_Circuit noOverrides k 80 50 sw)
       \<lparr>totalCalls := j, errorCalls := 80, state := OPEN, ongoingSleepWindow := Some x\<rparr>"

text \<open>
  The worlds of the scenario: the key is fresh or its circuit is \<open>closedAfter k sw j\<close>, and
  its circuit is \<open>openAfter k sw x j\<close>; in both the persisted snapshot is that of the circuit.
\<close>

definition closedWorld :: "string \<Rightarrow> int \<Rightarrow> nat \<Rightarrow> ('a, 'e) World \<Rightarrow> bool" where
  "closedWorld k sw j w \<longleftrightarrow>
     (j = 0 \<and> CircuitInstancesDictionary w k = None) \<or>
     (CircuitInstancesDictionary w k = Some (closedAfter k sw j) \<and>
      CircuitDataDictionary w k = Some (snapshot (closedAfter k sw j)))"

definition openWorld :: "string \<Rightarrow> int \<Rightarrow> int \<Rightarrow> nat \<Rightarrow> ('a, 'e) World \<Rightarrow> bool" where
  "openWorld k sw x j w \<longleftrightarrow>
     CircuitInstancesDictionary w k = Some (openAfter k sw x j) \<and>
     CircuitDataDictionary w k = Some (snapshot (openAfter k sw x j))"

section \<open>Unfolding the definitions\<close>

lemmas circuit_defs = getInstance_def new_Circuit_def js_or_def reloadStats_def isSleepWindowOver_def
  allowExecution_def isHalfOpen_def registerCall_def markSuccess_def snapshot_def registerError_def
  errorPercentageOf_def store_def finishWorkflow_def emit_def registerErrorAndCalculateMetrics_def

lemmas executor_defs = execute_def execute_begin_def settle_def onFulfilled_def onRejected_def
  exceptionOf_def isFiltered_def resumeWithFallback_def TAG_def calls_since_def

lemmas example_defs = emptyWorld_def noOverrides_def failingCommand_def

section \<open>Opening the circuit\<close>


lemma execute_admitted:
  assumes "getInstance cfg now (key cmd) (opts_requestVolumeThreshold cmd)
             (opts_errorThreshold cmd) (sleepWindowInMillis cmd) w = (c0, w0)"
      and "allowExecution (registerCall c0)"
  shows "execute cfg now now' cmd params w =
           settle now' cmd (registerCall c0) params (action cmd params)
             (emit (ActionCalled (key cmd) params) (store (key cmd) (registerCall c0) w0))"
  using assms by (simp add: execute_def execute_begin_def Let_def)

lemma execute_not_admitted:
  assumes "getInstance cfg now (key cmd) (opts_requestVolumeThreshold cmd)
             (opts_errorThreshold cmd) (sleepWindowInMillis cmd) w = (c0, w0)"
      and "\<not> allowExecution (registerCall c0)"
  shows "execute cfg now now' cmd params w =
           resumeWithFallback None cmd params
             (finishWorkflow (registerCall c0) (store (key cmd) (registerCall c0) w0))"
  using assms by (simp add: execute_def execute_begin_def Let_def split: prod.splits)





section \<open>The effect of one execution\<close>

lemma resumeWithFallback_effect:
  assumes "resumeWithFallback err cmd params w = (out, w')"
  shows "\<exists>evs. events w' = events w @ evs \<and> filter is_DictSet evs = [] \<and>
           filter is_ActionCalled evs = [] \<and>
           CircuitInstancesDictionary w' = CircuitInstancesDictionary w \<and>
           CircuitDataDictionary w' = CircuitDataDictionary w"
  using assms
  by (auto simp: resumeWithFallback_def emit_def Let_def split: option.splits if_splits)

lemma commandkey_ops [simp]:
  "commandkey (registerCall c) = commandkey c"
  "commandkey (markSuccess c) = commandkey c"
  "commandkey (registerError now c) = commandkey c"
  by (simp_all add: registerCall_def markSuccess_def registerError_def Let_def)

lemma settle_effect:
  assumes "settle now cmd c params s w = (out, w')"
      and "CircuitInstancesDictionary w (key cmd) = Some c"
  shows "\<exists>c' evs. CircuitInstancesDictionary w' = (CircuitInstancesDictionary w)(key cmd \<mapsto> c') \<and>
           c' \<in> {c, markSuccess c, registerError now c} \<and>
           CircuitDataDictionary w' = (CircuitDataDictionary w)(commandkey c \<mapsto> snapshot c') \<and>
           events w' = events w @ evs \<and>
           filter is_DictSet evs = [DictSet (commandkey c) (snapshot c')] \<and>
           filter is_ActionCalled evs = []"
proof (cases s)
  case (Resolved result)
  with assms show ?thesis
    by (auto simp: settle_def onFulfilled_def finishWorkflow_def store_def emit_def Let_def)
next
  case (Rejected err)
  show ?thesis
  proof (cases "isFiltered cmd (exceptionOf cmd err) params")
    case True
    with assms Rejected have w': "w' = finishWorkflow c
           (case errorFilter cmd of
              Some f \<Rightarrow> emit (FilterCalled (key cmd) (exceptionOf cmd err) params)
                 (case errorHandler cmd of Some h \<Rightarrow> emit (HandlerCalled (key cmd) err) w | None \<Rightarrow> w)
            | None \<Rightarrow> (case errorHandler cmd of Some h \<Rightarrow> emit (HandlerCalled (key cmd) err) w | None \<Rightarrow> w))"
      by (simp add: settle_def onRejected_def Let_def)
    have "CircuitInstancesDictionary w' = (CircuitInstancesDictionary w)(key cmd \<mapsto> c)"
      using assms(2) unfolding w'
      by (auto simp: finishWorkflow_def emit_def split: option.splits)
    moreover have "CircuitDataDictionary w' = (CircuitDataDictionary w)(commandkey c \<mapsto> snapshot c)"
      unfolding w' by (auto simp: finishWorkflow_def emit_def split: option.splits)
    moreover have "\<exists>evs. events w' = events w @ evs \<and>
           filter is_DictSet evs = [DictSet (commandkey c) (snapshot c)] \<and>
           filter is_ActionCalled evs = []"
      unfolding w' by (auto simp: finishWorkflow_def emit_def split: option.splits)
    ultimately show ?thesis by blast
  next
    case False
    let ?c' = "registerError now c"
    let ?w2 = "(case errorFilter cmd of
              Some f \<Rightarrow> emit (FilterCalled (key cmd) (exceptionOf cmd err) params)
                 (case errorHandler cmd of Some h \<Rightarrow> emit (HandlerCalled (key cmd) err) w | None \<Rightarrow> w)
            | None \<Rightarrow> (case errorHandler cmd of Some h \<Rightarrow> emit (HandlerCalled (key cmd) err) w | None \<Rightarrow> w))"
    let ?w3 = "registerErrorAndCalculateMetrics now (key cmd) c ?w2"
    from False assms Rejected have r: "resumeWithFallback (exceptionOf cmd err) cmd params ?w3 = (out, w')"
      by (simp add: settle_def onRejected_def Let_def)
    from resumeWithFallback_effect [OF r] obtain evs where
      e: "events w' = events ?w3 @ evs" "filter is_DictSet evs = []" "filter is_ActionCalled evs = []"
         "CircuitInstancesDictionary w' = CircuitInstancesDictionary ?w3"
         "CircuitDataDictionary w' = CircuitDataDictionary ?w3"
      by blast
    have "CircuitInstancesDictionary ?w3 = (CircuitInstancesDictionary w)(key cmd \<mapsto> ?c')"
      by (auto simp: registerErrorAndCalculateMetrics_def finishWorkflow_def store_def emit_def
          Let_def split: option.splits)
    moreover have "CircuitDataDictionary ?w3 = (CircuitDataDictionary w)(commandkey c \<mapsto> snapshot ?c')"
      by (auto simp: registerErrorAndCalculateMetrics_def finishWorkflow_def store_def emit_def
          Let_def split: option.splits)
    moreover have "\<exists>evs3. events ?w3 = events w @ evs3 \<and>
           filter is_DictSet evs3 = [DictSet (commandkey c) (snapshot ?c')] \<and>
           filter is_ActionCalled evs3 = []"
      by (auto simp: registerErrorAndCalculateMetrics_def finishWorkflow_def store_def emit_def
          Let_def split: option.splits)
    ultimately show ?thesis using e by auto
  qed
qed


lemma reloadStats_frame [simp]:
  "commandkey (reloadStats now d c) = commandkey c"
  "requestVolumeThreshold (reloadStats now d c) = requestVolumeThreshold c"
  "errorThreshold (reloadStats now d c) = errorThreshold c"
  "sleepWindowInMilliseconds (reloadStats now d c) = sleepWindowInMilliseconds c"
  "forceOpen (reloadStats now d c) = forceOpen c"
  by (simp_all add: reloadStats_def Let_def split: option.splits)

lemma begin_effect:
  assumes "getInstance cfg now (key cmd) (opts_requestVolumeThreshold cmd)
             (opts_errorThreshold cmd) (sleepWindowInMillis cmd) w = (c0, w0)"
      and "execute_begin cfg now cmd params w = (st, w1)"
  shows "CircuitInstancesDictionary w1 = (CircuitInstancesDictionary w)(key cmd \<mapsto> registerCall c0) \<and>
         (if allowExecution (registerCall c0)
          then st = Pending (registerCall c0) \<and>
               CircuitDataDictionary w1 = CircuitDataDictionary w \<and>
               events w1 = events w @ [ActionCalled (key cmd) params]
          else (\<exists>out evs. st = Returned out \<and>
                 CircuitDataDictionary w1 =
                   (CircuitDataDictionary w)(commandkey c0 \<mapsto> snapshot (registerCall c0)) \<and>
                 events w1 = events w @ evs \<and>
                 filter is_DictSet evs = [DictSet (commandkey c0) (snapshot (registerCall c0))] \<and>
                 filter is_ActionCalled evs = []))"
proof -
  have g: "CircuitInstancesDictionary w0 = (CircuitInstancesDictionary w)(key cmd \<mapsto> c0)"
      "CircuitDataDictionary w0 = CircuitDataDictionary w" "events w0 = events w"
    using assms(1) by (auto simp: getInstance_def store_def Let_def split: option.splits)
  let ?c = "registerCall c0"
  let ?w1 = "store (key cmd) ?c w0"
  show ?thesis
  proof (cases "allowExecution ?c")
    case True
    with assms have "st = Pending ?c" "w1 = emit (ActionCalled (key cmd) params) ?w1"
      by (simp_all add: execute_begin_def Let_def)
    with True g show ?thesis
      by (simp add: store_def emit_def)
  next
    case False
    with assms obtain out where
      r: "resumeWithFallback None cmd params (finishWorkflow ?c ?w1) = (out, w1)" and st: "st = Returned out"
      by (auto simp: execute_begin_def Let_def split: prod.splits)
    from resumeWithFallback_effect [OF r] obtain evs where
      e: "events w1 = events (finishWorkflow ?c ?w1) @ evs" "filter is_DictSet evs = []"
         "filter is_ActionCalled evs = []"
         "CircuitInstancesDictionary w1 = CircuitInstancesDictionary (finishWorkflow ?c ?w1)"
         "CircuitDataDictionary w1 = CircuitDataDictionary (finishWorkflow ?c ?w1)"
      by blast
    with False g st show ?thesis
      by (simp add: finishWorkflow_def store_def emit_def)
  qed
qed

lemma execute_effect:
  assumes "getInstance cfg now (key cmd) (opts_requestVolumeThreshold cmd)
             (opts_errorThreshold cmd) (sleepWindowInMillis cmd) w = (c0, w0)"
      and "execute cfg now now' cmd params w = (out, w')"
  shows "\<exists>c' evs.
           CircuitInstancesDictionary w' = (CircuitInstancesDictionary w)(key cmd \<mapsto> c') \<and>
           c' \<in> {registerCall c0, markSuccess (registerCall c0),
                  registerError now' (registerCall c0)} \<and>
           CircuitDataDictionary w' = (CircuitDataDictionary w)(commandkey c0 \<mapsto> snapshot c') \<and>
           events w' = events w @ evs \<and>
           filter is_DictSet evs = [DictSet (commandkey c0) (snapshot c')]"
proof -
  obtain st w1 where b: "execute_begin cfg now cmd params w = (st, w1)"
    by (cases "execute_begin cfg now cmd params w")
  note be = begin_effect [OF assms(1) b]
  show ?thesis
  proof (cases "allowExecution (registerCall c0)")
    case True
    with be have st: "st = Pending (registerCall c0)"
      and w1: "CircuitInstancesDictionary w1 = (CircuitInstancesDictionary w)(key cmd \<mapsto> registerCall c0)"
        "CircuitDataDictionary w1 = CircuitDataDictionary w"
        "events w1 = events w @ [ActionCalled (key cmd) params]"
      by simp_all
    from assms(2) b st have s: "settle now' cmd (registerCall c0) params (action cmd params) w1 = (out, w')"
      by (simp add: execute_def)
    have "CircuitInstancesDictionary w1 (key cmd) = Some (registerCall c0)"
      by (simp add: w1)
    from settle_effect [OF s this] w1 show ?thesis
      by auto
  next
    case False
    with be assms(2) b show ?thesis
      by (auto simp: execute_def)
  qed
qed


section \<open>Filtered errors\<close>



section \<open>The error handler and timeouts\<close>


section \<open>Construction of a circuit\<close>

text \<open>
  C9, as stated, fails: with the request volume threshold of the key overridden to 0 and the
  argument 20, the new circuit has the threshold 20.
\<close>

theorem zero_override_is_ignored:
  "cfg_requestVolumeThreshold (zeroVolume ''k'') ''k'' = Some 0 \<and>
   requestVolumeThreshold
     (fst (getInstance (zeroVolume ''k'') 0 ''k'' 20 50 1000 (emptyWorld :: (unit, string) World)))
     = 20"
  by (simp add: circuit_defs example_defs zeroVolume_def Let_def)

text \<open>
  C9, amended. On the first lookup of a key the new circuit is CLOSED with both counters 0 and
  no sleep window running; each threshold is the override of the key when there is one and it
  is not 0, and the argument otherwise; forceOpen is the override's; the circuit is registered
  under the key.
\<close>

theorem first_lookup_constructs_circuit:
  assumes "CircuitInstancesDictionary w k = None"
  shows "\<exists>c. getInstance cfg now k rvt ept sw w
               = (c, w\<lparr>CircuitInstancesDictionary := (CircuitInstancesDictionary w)(k \<mapsto> c)\<rparr>) \<and>
             commandkey c = k \<and> state c = CLOSED \<and> totalCalls c = 0 \<and> errorCalls c = 0 \<and>
             ongoingSleepWindow c = None \<and>
             requestVolumeThreshold c =
               (case cfg_requestVolumeThreshold cfg k of
                  None \<Rightarrow> rvt | Some v \<Rightarrow> if v = 0 then rvt else v) \<and>
             errorThreshold c =
               (case cfg_errorPercentageThreshold cfg k of
                  None \<Rightarrow> ept | Some v \<Rightarrow> if v = 0 then ept else v) \<and>
             sleepWindowInMilliseconds c =
               (case cfg_sleepWindowInMilliseconds cfg k of
                  None \<Rightarrow> sw | Some v \<Rightarrow> if v = 0 then sw else v) \<and>
             forceOpen c = cfg_forceOpen cfg k"
  using assms by (simp add: getInstance_def new_Circuit_def js_or_def store_def Let_def)

theorem first_lookup_constructs_circuit_witness:
  "\<exists>c. getInstance (zeroVolume ''k'') 0 ''k'' 20 50 1000 (emptyWorld :: (unit, string) World)
          = (c, emptyWorld\<lparr>CircuitInstancesDictionary := [''k'' \<mapsto> c]\<rparr>) \<and>
        state c = CLOSED \<and> requestVolumeThreshold c = 20 \<and> errorThreshold c = 50 \<and>
        sleepWindowInMilliseconds c = 1000 \<and> \<not> forceOpen c"
proof -
  have h: "CircuitInstancesDictionary (emptyWorld :: (unit, string) World) ''k'' = None"
    by (simp add: emptyWorld_def)
  from first_lookup_constructs_circuit [OF h, of "zeroVolume ''k''" 0 20 50 1000]
  show ?thesis
    by (auto simp: example_defs zeroVolume_def)
qed

section \<open>What no operation changes\<close>

lemma fixed_fields [simp]:
  "requestVolumeThreshold (registerCall c) = requestVolumeThreshold c"
  "errorThreshold (registerCall c) = errorThreshold c"
  "sleepWindowInMilliseconds (registerCall c) = sleepWindowInMilliseconds c"
  "forceOpen (registerCall c) = forceOpen c"
  "requestVolumeThreshold (markSuccess c) = requestVolumeThreshold c"
  "errorThreshold (markSuccess c) = errorThreshold c"
  "sleepWindowInMilliseconds (markSuccess c) = sleepWindowInMilliseconds c"
  "forceOpen (markSuccess c) = forceOpen c"
  "requestVolumeThreshold (registerError now c) = requestVolumeThreshold c"
  "errorThreshold (registerError now c) = errorThreshold c"
  "sleepWindowInMilliseconds (registerError now c) = sleepWindowInMilliseconds c"
  "forceOpen (registerError now c) = forceOpen c"
  by (simp_all add: registerCall_def markSuccess_def registerError_def Let_def)

lemma getInstance_existing:
  "CircuitInstancesDictionary w k = Some c \<Longrightarrow>
     getInstance cfg now k rvt ept sw w =
       (reloadStats now (CircuitDataDictionary w) c,
        store k (reloadStats now (CircuitDataDictionary w) c) w)"
  by (simp add: getInstance_def Let_def)

text \<open>
  One step of an interleaved run, seen from a key that has a circuit: the circuit stays
  registered, its key, thresholds, sleep window and forceOpen are what they were, the calls
  made are appended, and when the circuit is forced open none of them is a call of an action
  under that key.
\<close>

lemma apply_step_frame:
  assumes "CircuitInstancesDictionary w k = Some c"
  shows "\<exists>c' evs. CircuitInstancesDictionary (apply_step s w) k = Some c' \<and>
           commandkey c' = commandkey c \<and>
           requestVolumeThreshold c' = requestVolumeThreshold c \<and>
           errorThreshold c' = errorThreshold c \<and>
           sleepWindowInMilliseconds c' = sleepWindowInMilliseconds c \<and>
           forceOpen c' = forceOpen c \<and>
           events (apply_step s w) = events w @ evs \<and>
           (forceOpen c \<longrightarrow> (\<forall>p. ActionCalled k p \<notin> set evs))"
proof (cases s)
  case (Begin cfg now cmd params)
  obtain c0 w0 where g: "getInstance cfg now (key cmd) (opts_requestVolumeThreshold cmd)
             (opts_errorThreshold cmd) (sleepWindowInMillis cmd) w = (c0, w0)"
    by (cases "getInstance cfg now (key cmd) (opts_requestVolumeThreshold cmd)
             (opts_errorThreshold cmd) (sleepWindowInMillis cmd) w")
  obtain st w1 where b: "execute_begin cfg now cmd params w = (st, w1)"
    by (cases "execute_begin cfg now cmd params w")
  note be = begin_effect [OF g b]
  have evs: "\<exists>evs. events w1 = events w @ evs \<and>
      (\<forall>p. ActionCalled k p \<in> set evs \<longrightarrow> key cmd = k \<and> allowExecution (registerCall c0))"
  proof (cases "allowExecution (registerCall c0)")
    case True
    with be show ?thesis by simp
  next
    case False
    with be obtain evs where "events w1 = events w @ evs" "filter is_ActionCalled evs = []"
      by auto
    moreover from this have "\<forall>p. ActionCalled k p \<notin> set evs"
      by (auto simp: filter_empty_conv)
    ultimately show ?thesis by blast
  qed
  show ?thesis
  proof (cases "key cmd = k")
    case True
    with g assms have c0: "c0 = reloadStats now (CircuitDataDictionary w) c"
      by (simp add: getInstance_existing)
    have "forceOpen c \<Longrightarrow> \<not> allowExecution (registerCall c0)"
      by (simp add: allowExecution_def c0)
    with evs be True Begin b show ?thesis
      by (auto simp: c0)
  next
    case False
    with evs be Begin b assms show ?thesis
      by auto
  qed
next
  case (Settle now cmd params r)
  show ?thesis
  proof (cases "CircuitInstancesDictionary w (key cmd)")
    case None
    with Settle assms show ?thesis by simp
  next
    case (Some circuit)
    obtain out w' where s: "settle now cmd circuit params r w = (out, w')"
      by (cases "settle now cmd circuit params r w")
    from settle_effect [OF s Some] obtain c' evs where
      e: "CircuitInstancesDictionary w' = (CircuitInstancesDictionary w)(key cmd \<mapsto> c')"
         "c' \<in> {circuit, markSuccess circuit, registerError now circuit}"
         "events w' = events w @ evs" "filter is_ActionCalled evs = []"
      by blast
    from e(4) have "\<forall>p. ActionCalled k p \<notin> set evs"
      by (auto simp: filter_empty_conv)
    with e Settle Some s assms show ?thesis
      by (cases "key cmd = k") auto
  qed
qed

lemma run_steps_frame:
  assumes "CircuitInstancesDictionary w k = Some c"
  shows "\<exists>c' evs. CircuitInstancesDictionary (run_steps steps w) k = Some c' \<and>
           commandkey c' = commandkey c \<and>
           requestVolumeThreshold c' = requestVolumeThreshold c \<and>
           errorThreshold c' = errorThreshold c \<and>
           sleepWindowInMilliseconds c' = sleepWindowInMilliseconds c \<and>
           forceOpen c' = forceOpen c \<and>
           events (run_steps steps w) = events w @ evs \<and>
           (forceOpen c \<longrightarrow> (\<forall>p. ActionCalled k p \<notin> set evs))"
  using assms
proof (induction steps arbitrary: w c)
  case Nil
  then show ?case by simp
next
  case (Cons s steps)
  from apply_step_frame [OF Cons.prems, of s] obtain c1 evs1 where
    s1: "CircuitInstancesDictionary (apply_step s w) k = Some c1"
        "commandkey c1 = commandkey c"
        "requestVolumeThreshold c1 = requestVolumeThreshold c"
        "errorThreshold c1 = errorThreshold c"
        "sleepWindowInMilliseconds c1 = sleepWindowInMilliseconds c"
        "forceOpen c1 = forceOpen c"
        "events (apply_step s w) = events w @ evs1"
        "forceOpen c \<longrightarrow> (\<forall>p. ActionCalled k p \<notin> set evs1)"
    by blast
  from Cons.IH [OF s1(1)] obtain c2 evs2 where
    s2: "CircuitInstancesDictionary (run_steps steps (apply_step s w)) k = Some c2"
        "commandkey c2 = commandkey c1"
        "requestVolumeThreshold c2 = requestVolumeThreshold c1"
        "errorThreshold c2 = errorThreshold c1"
        "sleepWindowInMilliseconds c2 = sleepWindowInMilliseconds c1"
        "forceOpen c2 = forceOpen c1"
        "events (run_steps steps (apply_step s w)) = events (apply_step s w) @ evs2"
        "forceOpen c1 \<longrightarrow> (\<forall>p. ActionCalled k p \<notin> set evs2)"
    by blast
  show ?case
    using s1 s2 by (intro exI [of _ c2] exI [of _ "evs1 @ evs2"]) auto
qed


section \<open>Forced open\<close>

text \<open>
  C6, as stated, fails in its last part: a circuit constructed while the environment forces
  its key open keeps forceOpen when the key is looked up again with an environment that
  reports false, and the call of that execution is not admitted.
\<close>

theorem forceOpen_survives_later_lookup:
  "\<not> cfg_forceOpen noOverrides ''k'' \<and>
   forceOpen
     (fst (getInstance noOverrides 2 ''k'' 20 50 1000
            (snd (execute (forcedOpen ''k'') 1 1 (failingCommand ''k'' 20 50 1000) () emptyWorld)))) \<and>
   calls_since
     (snd (execute (forcedOpen ''k'') 1 1 (failingCommand ''k'' 20 50 1000) () emptyWorld))
     (snd (execute noOverrides 2 2 (failingCommand ''k'' 20 50 1000) ()
            (snd (execute (forcedOpen ''k'') 1 1 (failingCommand ''k'' 20 50 1000) () emptyWorld))))
     = [DictSet ''k'' \<lparr>totalCalls = 2, errorCalls = 0, ongoingSleepWindow = None, state = CLOSED\<rparr>,
        FallbackCalled ''k'' None ()]"
  by (simp add: executor_defs circuit_defs example_defs forcedOpen_def Let_def)

text \<open>
  C6, amended. A circuit whose forceOpen is true admits no call, whatever its state and
  counters; and through any interleaving of executions, under any environment, the circuit of
  that key keeps forceOpen and no action is called under that key: forceOpen is read when
  the circuit is constructed and nothing changes it afterwards.
\<close>

theorem forceOpen_admits_nothing:
  assumes "CircuitInstancesDictionary w k = Some c"
      and "forceOpen c"
  shows "\<not> allowExecution c \<and>
         (\<exists>c' evs. CircuitInstancesDictionary (run_steps steps w) k = Some c' \<and>
            forceOpen c' \<and> \<not> allowExecution c' \<and>
            events (run_steps steps w) = events w @ evs \<and>
            (\<forall>p. ActionCalled k p \<notin> set evs))"
proof -
  from run_steps_frame [OF assms(1), of steps] obtain c' evs where
    "CircuitInstancesDictionary (run_steps steps w) k = Some c'"
    "forceOpen c' = forceOpen c"
    "events (run_steps steps w) = events w @ evs"
    "forceOpen c \<longrightarrow> (\<forall>p. ActionCalled k p \<notin> set evs)"
    by blast
  with assms(2) show ?thesis
    by (auto simp: allowExecution_def)
qed

theorem forceOpen_admits_nothing_witness:
  "\<exists>c'. CircuitInstancesDictionary
          (run_steps [Begin noOverrides 2 (failingCommand ''k'' 20 50 1000) ()]
             (snd (execute (forcedOpen ''k'') 1 1 (failingCommand ''k'' 20 50 1000) () emptyWorld)))
          ''k'' = Some c' \<and> forceOpen c'"
proof -
  let ?w = "snd (execute (forcedOpen ''k'') 1 1 (failingCommand ''k'' 20 50 1000) () emptyWorld)"
  let ?c = "(new_Circuit (forcedOpen ''k'') ''k'' 20 50 1000)\<lparr>totalCalls := 1\<rparr>"
  have h1: "CircuitInstancesDictionary ?w ''k'' = Some ?c"
    by (simp add: executor_defs circuit_defs example_defs forcedOpen_def Let_def)
  have h2: "forceOpen ?c"
    by (simp add: circuit_defs example_defs forcedOpen_def)
  from forceOpen_admits_nothing [OF h1 h2, of "[Begin noOverrides 2 (failingCommand ''k'' 20 50 1000) ()]"]
  show ?thesis by blast
qed

section \<open>Thresholds of an existing circuit\<close>

lemma resumeWithFallback_ignores_thresholds:
  "resumeWithFallback err (cmd\<lparr>opts_requestVolumeThreshold := a, opts_errorThreshold := b,
                                  sleepWindowInMillis := d\<rparr>) params w
     = resumeWithFallback err cmd params w"
  by (simp add: resumeWithFallback_def Let_def split: option.splits)

lemma settle_ignores_thresholds:
  "settle now (cmd\<lparr>opts_requestVolumeThreshold := a, opts_errorThreshold := b,
                   sleepWindowInMillis := d\<rparr>) c params s w
     = settle now cmd c params s w"
proof (cases s)
  case (Resolved result)
  then show ?thesis
    by (simp add: settle_def onFulfilled_def)
next
  case (Rejected err)
  then show ?thesis
    by (simp add: settle_def onRejected_def exceptionOf_def isFiltered_def
        resumeWithFallback_ignores_thresholds Let_def split: option.splits)
qed

lemma execute_begin_ignores_thresholds:
  assumes "CircuitInstancesDictionary w (key cmd) = Some c"
  shows "execute_begin cfg now (cmd\<lparr>opts_requestVolumeThreshold := a, opts_errorThreshold := b,
                                     sleepWindowInMillis := d\<rparr>) params w
           = execute_begin cfg now cmd params w"
  using assms
  by (simp add: execute_begin_def getInstance_existing resumeWithFallback_ignores_thresholds
      Let_def split: prod.splits)

lemma execute_ignores_thresholds:
  assumes "CircuitInstancesDictionary w (key cmd) = Some c"
  shows "execute cfg now now' (cmd\<lparr>opts_requestVolumeThreshold := a, opts_errorThreshold := b,
                                  sleepWindowInMillis := d\<rparr>) params w
           = execute cfg now now' cmd params w"
  by (simp add: execute_def execute_begin_ignores_thresholds [OF assms]
      settle_ignores_thresholds split: prod.splits started.splits)

text \<open>
  C10. Through any interleaving of executions the circuit of a key keeps the
  requestVolumeThreshold, errorThreshold and sleepWindowInMilliseconds it has; and an
  execution for a key that has a circuit does the same whatever thresholds and sleep window
  the setters have put into the command, in its start and in its callbacks.
\<close>

theorem thresholds_fixed_at_construction:
  assumes "CircuitInstancesDictionary w (key cmd) = Some c"
  shows "(\<exists>c'. CircuitInstancesDictionary (run_steps steps w) (key cmd) = Some c' \<and>
            requestVolumeThreshold c' = requestVolumeThreshold c \<and>
            errorThreshold c' = errorThreshold c \<and>
            sleepWindowInMilliseconds c' = sleepWindowInMilliseconds c) \<and>
         execute cfg now now'
           (Command_requestVolumeThreshold a
             (Command_errorThresholdPercentage b
               (Command_sleepWindowInMilliseconds d cmd))) params w
           = execute cfg now now' cmd params w \<and>
         settle now'
           (Command_requestVolumeThreshold a
             (Command_errorThresholdPercentage b
               (Command_sleepWindowInMilliseconds d cmd))) c1 params s w1
           = settle now' cmd c1 params s w1"
proof -
  have 1: "\<exists>c'. CircuitInstancesDictionary (run_steps steps w) (key cmd) = Some c' \<and>
            requestVolumeThreshold c' = requestVolumeThreshold c \<and>
            errorThreshold c' = errorThreshold c \<and>
            sleepWindowInMilliseconds c' = sleepWindowInMilliseconds c"
    using run_steps_frame [OF assms, of steps] by blast
  have set: "Command_requestVolumeThreshold a
             (Command_errorThresholdPercentage b
               (Command_sleepWindowInMilliseconds d cmd))
        = cmd\<lparr>opts_requestVolumeThreshold := a, opts_errorThreshold := b,
               sleepWindowInMillis := d\<rparr>"
    by (simp add: Command_requestVolumeThreshold_def Command_errorThresholdPercentage_def
        Command_sleepWindowInMilliseconds_def)
  show ?thesis
    unfolding set using 1 execute_ignores_thresholds [OF assms] settle_ignores_thresholds
    by simp
qed

theorem thresholds_fixed_at_construction_witness:
  "execute noOverrides 2 3
     (Command_requestVolumeThreshold 1
       (Command_errorThresholdPercentage 1
         (Command_sleepWindowInMilliseconds 5 (failingCommand ''k'' 20 50 1000)))) ()
     (snd (execute noOverrides 1 1 (failingCommand ''k'' 20 50 1000) () emptyWorld))
   = execute noOverrides 2 3 (failingCommand ''k'' 20 50 1000) ()
       (snd (execute noOverrides 1 1 (failingCommand ''k'' 20 50 1000) () emptyWorld))"
proof -
  let ?w = "snd (execute noOverrides 1 1 (failingCommand ''k'' 20 50 1000) () emptyWorld)"
  let ?c = "(new_Circuit noOverrides ''k'' 20 50 1000)\<lparr>totalCalls := 1, errorCalls := 1\<rparr>"
  have h: "CircuitInstancesDictionary ?w (key (failingCommand ''k'' 20 50 1000)) = Some ?c"
    by (simp add: executor_defs circuit_defs example_defs Let_def)
  from thresholds_fixed_at_construction [OF h, of "[]" noOverrides 2 3 1 1 5 "()"]
  show ?thesis by blast
qed

section \<open>From OPEN to HALF_OPEN\<close>

text \<open>
  C2, as stated, fails while a probe is in flight. In \<open>probePending\<close> the persisted snapshot
  of the key holds the expiry 11 and the state OPEN, and the circuit object, already switched to
  HALF_OPEN by the execution in flight, holds no expiry. A lookup at time 21 finds the persisted
  expiry passed, and yet restores OPEN and the expiry 11: the test of the sleep window reads
  the circuit object, not the snapshot.
\<close>

theorem passed_persisted_expiry_restored_open:
  "map_option ongoingSleepWindow (CircuitDataDictionary probePending ''k'') = Some (Some 11) \<and>
   (11 :: int) < 21 \<and>
   map_option ongoingSleepWindow (CircuitInstancesDictionary probePending ''k'') = Some None \<and>
   state (fst (getInstance noOverrides 21 ''k'' 0 50 10 probePending)) = OPEN \<and>
   ongoingSleepWindow (fst (getInstance noOverrides 21 ''k'' 0 50 10 probePending)) = Some 11"
  by (simp add: executor_defs circuit_defs example_defs probePending_def Let_def)

lemma settle_state:
  assumes "CircuitInstancesDictionary w k = Some c" and "state c = OPEN"
  shows "\<exists>c'. CircuitInstancesDictionary (apply_step (Settle t cmd params r) w) k = Some c' \<and>
           state c' \<noteq> HALF_OPEN"
proof (cases "CircuitInstancesDictionary w (key cmd)")
  case None
  with assms show ?thesis by simp
next
  case (Some circuit)
  obtain out w' where s: "settle t cmd circuit params r w = (out, w')"
    by (cases "settle t cmd circuit params r w")
  from settle_effect [OF s Some] obtain c' where
    e: "CircuitInstancesDictionary w' = (CircuitInstancesDictionary w)(key cmd \<mapsto> c')"
       "c' \<in> {circuit, markSuccess circuit, registerError t circuit}"
    by blast
  show ?thesis
  proof (cases "key cmd = k")
    case True
    with Some assms have "circuit = c" by simp
    with e(2) assms(2) have "state c' \<noteq> HALF_OPEN"
      by (auto simp: markSuccess_def registerError_def Let_def split: if_splits)
    with e(1) True Some s show ?thesis by simp
  next
    case False
    with e(1) Some s assms show ?thesis by simp
  qed
qed

text \<open>
  C2, amended. For a circuit that exists and has a persisted snapshot, the lookup sets the
  counters from the snapshot and then: if the ongoingSleepWindow of the circuit object itself
  is set, is not 0 and is earlier than now, it clears the expiry and forces HALF_OPEN;
  otherwise it restores state and expiry verbatim from the snapshot. When the object's expiry
  is the persisted one, this is the test of the persisted expiry. Nothing else moves a circuit
  from OPEN to HALF_OPEN: registerCall keeps the state, markSuccess sets CLOSED, recording an
  error sets OPEN or keeps the state, the commit leaves the circuit objects alone, and a
  callback leaves a circuit that is OPEN in a state other than HALF_OPEN.
\<close>

theorem half_open_only_on_lookup:
  assumes "CircuitInstancesDictionary w k = Some c"
      and "CircuitDataDictionary w (commandkey c) = Some s"
  shows "fst (getInstance cfg now k rvt ept sw w) =
           (if (case ongoingSleepWindow c of None \<Rightarrow> False | Some v \<Rightarrow> v \<noteq> 0 \<and> v < now)
            then c\<lparr>totalCalls := totalCalls s, errorCalls := errorCalls s,
                   ongoingSleepWindow := None, state := HALF_OPEN\<rparr>
            else c\<lparr>totalCalls := totalCalls s, errorCalls := errorCalls s,
                   state := state s, ongoingSleepWindow := ongoingSleepWindow s\<rparr>) \<and>
         (ongoingSleepWindow c = ongoingSleepWindow s \<longrightarrow>
            state (fst (getInstance cfg now k rvt ept sw w)) =
              (if (case ongoingSleepWindow s of None \<Rightarrow> False | Some v \<Rightarrow> v \<noteq> 0 \<and> v < now)
               then HALF_OPEN else state s) \<and>
            ongoingSleepWindow (fst (getInstance cfg now k rvt ept sw w)) =
              (if (case ongoingSleepWindow s of None \<Rightarrow> False | Some v \<Rightarrow> v \<noteq> 0 \<and> v < now)
               then None else ongoingSleepWindow s)) \<and>
         state (registerCall c1) = state c1 \<and>
         state (markSuccess c1) = CLOSED \<and>
         (state (registerError t c1) = OPEN \<or> state (registerError t c1) = state c1) \<and>
         CircuitInstancesDictionary (finishWorkflow c1 w1) = CircuitInstancesDictionary w1 \<and>
         (state c = OPEN \<longrightarrow>
            (\<exists>c'. CircuitInstancesDictionary (apply_step (Settle t cmd params r) w) k = Some c' \<and>
               state c' \<noteq> HALF_OPEN))"
proof -
  have g: "fst (getInstance cfg now k rvt ept sw w) = reloadStats now (CircuitDataDictionary w) c"
    using assms(1) by (simp add: getInstance_existing)
  have r: "reloadStats now (CircuitDataDictionary w) c =
           (if (case ongoingSleepWindow c of None \<Rightarrow> False | Some v \<Rightarrow> v \<noteq> 0 \<and> v < now)
            then c\<lparr>totalCalls := totalCalls s, errorCalls := errorCalls s,
                   ongoingSleepWindow := None, state := HALF_OPEN\<rparr>
            else c\<lparr>totalCalls := totalCalls s, errorCalls := errorCalls s,
                   state := state s, ongoingSleepWindow := ongoingSleepWindow s\<rparr>)"
    using assms(2) by (simp add: reloadStats_def isSleepWindowOver_def Let_def)
  have ops: "state (registerCall c1) = state c1" "state (markSuccess c1) = CLOSED"
      "state (registerError t c1) = OPEN \<or> state (registerError t c1) = state c1"
      "CircuitInstancesDictionary (finishWorkflow c1 w1) = CircuitInstancesDictionary w1"
    by (simp_all add: registerCall_def markSuccess_def registerError_def finishWorkflow_def
        emit_def Let_def)
  have cb: "state c = OPEN \<longrightarrow>
            (\<exists>c'. CircuitInstancesDictionary (apply_step (Settle t cmd params r) w) k = Some c' \<and>
               state c' \<noteq> HALF_OPEN)"
    using settle_state [OF assms(1)] by blast
  show ?thesis
    unfolding g r using ops cb by simp
qed

theorem half_open_only_on_lookup_witness:
  "state (fst (getInstance noOverrides 20 ''k'' 0 50 10
       (snd (execute noOverrides 1 1 (failingCommand ''k'' 0 50 10) () emptyWorld)))) = HALF_OPEN \<and>
   ongoingSleepWindow (fst (getInstance noOverrides 20 ''k'' 0 50 10
       (snd (execute noOverrides 1 1 (failingCommand ''k'' 0 50 10) () emptyWorld)))) = None \<and>
   state (fst (getInstance noOverrides 11 ''k'' 0 50 10
       (snd (execute noOverrides 1 1 (failingCommand ''k'' 0 50 10) () emptyWorld)))) = OPEN \<and>
   ongoingSleepWindow (fst (getInstance noOverrides 11 ''k'' 0 50 10
       (snd (execute noOverrides 1 1 (failingCommand ''k'' 0 50 10) () emptyWorld)))) = Some 11"
proof -
  let ?w = "snd (execute noOverrides 1 1 (failingCommand ''k'' 0 50 10) () emptyWorld)"
  let ?c = "(new_Circuit noOverrides ''k'' 0 50 10)
              \<lparr>totalCalls := 1, errorCalls := 1, state := OPEN, ongoingSleepWindow := Some 11\<rparr>"
  have h1: "CircuitInstancesDictionary ?w ''k'' = Some ?c"
    by (simp add: executor_defs circuit_defs example_defs Let_def)
  have h2: "CircuitDataDictionary ?w (commandkey ?c) = Some (snapshot ?c)"
    by (simp add: executor_defs circuit_defs example_defs Let_def)
  from half_open_only_on_lookup [OF h1 h2, THEN conjunct1, of noOverrides 20 0 50 10]
       half_open_only_on_lookup [OF h1 h2, THEN conjunct1, of noOverrides 11 0 50 10]
  show ?thesis
    by (simp add: snapshot_def)
qed

section \<open>The counters\<close>












section \<open>The scenario of 100 failing calls\<close>

lemma rat_of_nat_ge_80: "(80 \<le> rat_of_nat n) = (80 \<le> n)"
  using of_nat_le_iff [of 80 n, where ?'a = rat] by simp

lemma percentage_all_failed: "errorPercentageOf (Suc j) (Suc j) = Finite 100"
proof -
  have "rat_of_nat (Suc j) / rat_of_nat (Suc j) = 1"
    by (rule divide_self) (simp del: of_nat_Suc)
  then show ?thesis
    by (simp add: errorPercentageOf_def del: of_nat_Suc)
qed

lemma registerError_closed:
  "registerError now (registerCall (closedAfter k sw j)) =
     (if 79 \<le> j
      then (closedAfter k sw (Suc j))\<lparr>state := OPEN, ongoingSleepWindow := Some (now + sw)\<rparr>
      else closedAfter k sw (Suc j))"
  by (simp add: registerError_def registerCall_def closedAfter_def new_Circuit_def js_or_def
      noOverrides_def Let_def percentage_all_failed rat_of_nat_ge_80 del: of_nat_Suc)

lemma closedAfter_80:
  "(closedAfter k sw 80)\<lparr>state := OPEN, ongoingSleepWindow := Some x\<rparr> = openAfter k sw x 80"
  by (simp add: closedAfter_def openAfter_def)

lemma getInstance_closedWorld:
  assumes "closedWorld k sw j w"
      and "\<not> cfg_forceOpen cfg k" "cfg_requestVolumeThreshold cfg k = None"
          "cfg_errorPercentageThreshold cfg k = None" "cfg_sleepWindowInMilliseconds cfg k = None"
  shows "getInstance cfg now k 80 50 sw w = (closedAfter k sw j, store k (closedAfter k sw j) w)"
  using assms
  by (auto simp: closedWorld_def getInstance_def reloadStats_def isSleepWindowOver_def
      closedAfter_def new_Circuit_def js_or_def noOverrides_def snapshot_def Let_def)

lemma execute_closedWorld:
  assumes "closedWorld k sw j w"
      and "\<not> cfg_forceOpen cfg k" "cfg_requestVolumeThreshold cfg k = None"
          "cfg_errorPercentageThreshold cfg k = None" "cfg_sleepWindowInMilliseconds cfg k = None"
      and "execute cfg now now' (failingCommand k 80 50 sw) () w = (out, w')"
  shows "summary (out, calls_since w w') = (Resolved ''FALLBACK'', 1, 1) \<and>
         (if 79 \<le> j then j = 79 \<longrightarrow> openWorld k sw (now' + sw) 80 w'
          else closedWorld k sw (Suc j) w')"
proof -
  let ?cmd = "failingCommand k 80 50 sw :: (unit, string, string) Command"
  let ?c1 = "registerCall (closedAfter k sw j)"
  let ?c2 = "registerError now' ?c1"
  let ?w1 = "emit (ActionCalled k ()) (store k ?c1 (store k (closedAfter k sw j) w))"
  have g: "getInstance cfg now (key ?cmd) (opts_requestVolumeThreshold ?cmd)
             (opts_errorThreshold ?cmd) (sleepWindowInMillis ?cmd) w
           = (closedAfter k sw j, store k (closedAfter k sw j) w)"
    using getInstance_closedWorld [OF assms(1-5)] by (simp add: failingCommand_def)
  have a: "allowExecution ?c1"
    by (simp add: allowExecution_def registerCall_def closedAfter_def new_Circuit_def
        noOverrides_def)
  have k2: "commandkey (closedAfter k sw j) = k"
    by (simp add: closedAfter_def new_Circuit_def)
  from execute_admitted [OF g a, of now' "()"] assms(6)
  have "(out, w') = settle now' ?cmd ?c1 () (action ?cmd ()) ?w1"
    by (simp add: failingCommand_def)
  also have "\<dots> = (Resolved ''FALLBACK'',
      emit (FallbackCalled k (Some (UserError ''FAIL'')) ())
        (finishWorkflow ?c2 (store k ?c2 ?w1)))"
    by (simp add: settle_def onRejected_def exceptionOf_def isFiltered_def
        resumeWithFallback_def registerErrorAndCalculateMetrics_def failingCommand_def Let_def)
  finally have out: "out = Resolved ''FALLBACK''"
    and w': "w' = emit (FallbackCalled k (Some (UserError ''FAIL'')) ())
        (finishWorkflow ?c2 (store k ?c2 ?w1))"
    by simp_all
  have ev: "calls_since w w' =
      [ActionCalled k (), DictSet k (snapshot ?c2), FallbackCalled k (Some (UserError ''FAIL'')) ()]"
    unfolding w' by (simp add: calls_since_def emit_def finishWorkflow_def store_def k2)
  have i: "CircuitInstancesDictionary w' k = Some ?c2"
    unfolding w' by (simp add: emit_def finishWorkflow_def store_def)
  have d: "CircuitDataDictionary w' k = Some (snapshot ?c2)"
    unfolding w' by (simp add: emit_def finishWorkflow_def store_def k2)
  have "if 79 \<le> j then j = 79 \<longrightarrow> openWorld k sw (now' + sw) 80 w'
        else closedWorld k sw (Suc j) w'"
    using i d
    by (auto simp: registerError_closed closedWorld_def openWorld_def closedAfter_80)
  with out ev show ?thesis
    by (simp add: summary_def)
qed

lemma execute_openWorld:
  assumes "openWorld k sw x j w"
      and "execute cfg now now' (failingCommand k 80 50 sw) () w = (out, w')"
  shows "if x \<noteq> 0 \<and> x < now
         then summary (out, calls_since w w') = (Resolved ''FALLBACK'', 1, 1)
         else summary (out, calls_since w w') = (Resolved ''FALLBACK'', 0, 1) \<and>
              openWorld k sw x (Suc j) w'"
  using assms
  by (auto simp: openWorld_def openAfter_def executor_defs circuit_defs failingCommand_def
      noOverrides_def summary_def Let_def)


lemma executeEach_append:
  "executeEach (xs @ ys) w = executeEach xs w @ executeEach ys (run xs w)"
  by (induction xs w rule: executeEach.induct) (simp_all split: prod.splits)

lemma run_append: "run (xs @ ys) w = run ys (run xs w)"
  by (induction xs w rule: run.induct) simp_all

lemma closed_phase:
  assumes "\<not> cfg_forceOpen cfg k" "cfg_requestVolumeThreshold cfg k = None"
          "cfg_errorPercentageThreshold cfg k = None" "cfg_sleepWindowInMilliseconds cfg k = None"
  shows "closedWorld k sw j w \<Longrightarrow> j + length ts \<le> 80 \<Longrightarrow>
         map summary (executeEach (scenario cfg k sw ts) w)
           = replicate (length ts) (Resolved ''FALLBACK'', 1, 1) \<and>
         (j + length ts < 80 \<longrightarrow> closedWorld k sw (j + length ts) (run (scenario cfg k sw ts) w)) \<and>
         (j + length ts = 80 \<and> ts \<noteq> [] \<longrightarrow>
            openWorld k sw (snd (last ts) + sw) 80 (run (scenario cfg k sw ts) w))"
proof (induction ts arbitrary: w j)
  case Nil
  then show ?case by (simp add: scenario_def)
next
  case (Cons t ts)
  obtain now now' where t: "t = (now, now')" by (cases t)
  obtain out w' where e: "execute cfg now now' (failingCommand k 80 50 sw) () w = (out, w')"
    by (cases "execute cfg now now' (failingCommand k 80 50 sw) () w")
  note step = execute_closedWorld [OF Cons.prems(1) assms e]
  have sc: "scenario cfg k sw (t # ts)
      = (cfg, now, now', failingCommand k 80 50 sw, ()) # scenario cfg k sw ts"
    by (simp add: scenario_def t)
  show ?case
  proof (cases "79 \<le> j")
    case True
    from Cons.prems(2) have le: "j + length ts \<le> 79" by simp
    with True have j: "j = 79" and "length ts = 0" by arith+
    then have ts: "ts = []" by simp
    from step j have "summary (out, calls_since w w') = (Resolved ''FALLBACK'', 1, 1)"
        "openWorld k sw (now' + sw) 80 w'"
      by simp_all
    with j ts e show ?thesis
      by (simp add: scenario_def t)
  next
    case False
    with step have s1: "summary (out, calls_since w w') = (Resolved ''FALLBACK'', 1, 1)"
      and c1: "closedWorld k sw (Suc j) w'"
      by simp_all
    from Cons.prems(2) have "Suc j + length ts \<le> 80" by simp
    from Cons.IH [OF c1 this] s1 e False show ?thesis
      by (simp add: sc)
  qed
qed

lemma open_phase:
  "openWorld k sw x j w \<Longrightarrow> \<forall>t \<in> set ts. fst t \<le> x \<Longrightarrow>
     map summary (executeEach (scenario cfg k sw ts) w)
       = replicate (length ts) (Resolved ''FALLBACK'', 0, 1)"
proof (induction ts arbitrary: w j)
  case Nil
  then show ?case by (simp add: scenario_def)
next
  case (Cons t ts)
  obtain now now' where t: "t = (now, now')" by (cases t)
  obtain out w' where e: "execute cfg now now' (failingCommand k 80 50 sw) () w = (out, w')"
    by (cases "execute cfg now now' (failingCommand k 80 50 sw) () w")
  from Cons.prems(2) have "\<not> (x \<noteq> 0 \<and> x < now)"
    by (simp add: t)
  with execute_openWorld [OF Cons.prems(1) e]
  have s1: "summary (out, calls_since w w') = (Resolved ''FALLBACK'', 0, 1)"
    and o1: "openWorld k sw x (Suc j) w'"
    by simp_all
  from Cons.prems(2) have "\<forall>t \<in> set ts. fst t \<le> x" by simp
  from Cons.IH [OF o1 this] s1 e show ?case
    by (simp add: scenario_def t)
qed

lemma execute_events_grow:
  "\<exists>evs. events (snd (execute cfg now now' cmd params w)) = events w @ evs"
proof -
  obtain c0 w0 where g: "getInstance cfg now (key cmd) (opts_requestVolumeThreshold cmd)
             (opts_errorThreshold cmd) (sleepWindowInMillis cmd) w = (c0, w0)"
    by (cases "getInstance cfg now (key cmd) (opts_requestVolumeThreshold cmd)
             (opts_errorThreshold cmd) (sleepWindowInMillis cmd) w")
  obtain out w' where e: "execute cfg now now' cmd params w = (out, w')"
    by (cases "execute cfg now now' cmd params w")
  from execute_effect [OF g e] e show ?thesis by auto
qed

lemma run_events_grow: "\<exists>evs. events (run cs w) = events w @ evs"
proof (induction cs w rule: run.induct)
  case (1 w)
  then show ?case by simp
next
  case (2 cfg now now' cmd params cs w)
  from execute_events_grow [of cfg now now' cmd params w] 2 show ?case
    by auto
qed

lemma calls_since_run:
  "calls_since w (run cs w) = concat (map snd (executeEach cs w))"
proof (induction cs w rule: run.induct)
  case (1 w)
  then show ?case by (simp add: calls_since_def)
next
  case (2 cfg now now' cmd params cs w)
  let ?w' = "snd (execute cfg now now' cmd params w)"
  obtain evs where 1: "events ?w' = events w @ evs"
    using execute_events_grow [of cfg now now' cmd params w] by blast
  obtain evs' where 3: "events (run cs ?w') = events ?w' @ evs'"
    using run_events_grow [of cs ?w'] by blast
  have "calls_since w (run cs ?w') = calls_since w ?w' @ calls_since ?w' (run cs ?w')"
    by (simp add: calls_since_def 1 3)
  with 2 show ?case
    by (simp split: prod.splits)
qed

lemma count_calls:
  "length (filter P (concat (map snd rs))) = sum_list (map (\<lambda>r. length (filter P (snd r))) rs)"
  by (induction rs) simp_all

lemma summary_totals:
  assumes "map summary rs = replicate m (a, 1, 1) @ replicate n (a, 0, 1)"
  shows "length (filter is_ActionCalled (concat (map snd rs))) = m \<and>
         length (filter is_FallbackCalled (concat (map snd rs))) = m + n"
proof -
  have "map (\<lambda>r. length (filter is_ActionCalled (snd r))) rs = map (fst \<circ> snd) (map summary rs)"
    by (simp add: summary_def)
  moreover
  have "map (\<lambda>r. length (filter is_FallbackCalled (snd r))) rs = map (snd \<circ> snd) (map summary rs)"
    by (simp add: summary_def)
  ultimately show ?thesis
    unfolding count_calls assms by (simp add: sum_list_replicate)
qed


text \<open>
  C3, as stated, fails when the sleep window elapses during the run: with a sleep window of
  0 ms and the i-th call made at time i, the circuit opened by the 80th failure is HALF_OPEN
  when the 81st call looks it up, and the 81st call invokes the action.
\<close>

theorem short_sleep_window_probes_again:
  "map summary
     (executeEach (scenario noOverrides ''k'' 0 (map (\<lambda>i. (int i, int i)) [1..<101])) emptyWorld)
     ! 80
   = (Resolved ''FALLBACK'', 1, 1)"
proof -
  let ?f = "\<lambda>i. (int i, int i)"
  let ?w = "emptyWorld :: (unit, string) World"
  let ?xs = "scenario noOverrides ''k'' 0 (map ?f [1..<81])"
  let ?ys = "scenario noOverrides ''k'' 0 (map ?f [82..<101])"
  let ?call = "(noOverrides, 81, 81, failingCommand ''k'' 80 50 0, ())"
  have split: "scenario noOverrides ''k'' 0 (map ?f [1..<101]) = ?xs @ ?call # ?ys"
  proof -
    have "[1..<101] = [1..<81] @ [81..<101]"
      using upt_add_eq_append [of 1 81 20] by simp
    moreover have "[81..<101] = 81 # [82..<101]"
      by (simp add: upt_conv_Cons)
    ultimately show ?thesis
      by (simp add: scenario_def)
  qed
  have c0: "closedWorld ''k'' 0 0 ?w"
    by (simp add: closedWorld_def emptyWorld_def)
  have cfg: "\<not> cfg_forceOpen noOverrides ''k''" "cfg_requestVolumeThreshold noOverrides ''k'' = None"
      "cfg_errorPercentageThreshold noOverrides ''k'' = None"
      "cfg_sleepWindowInMilliseconds noOverrides ''k'' = None"
    by (simp_all add: noOverrides_def)
  have len: "0 + length (map ?f [1..<81]) \<le> 80"
    by simp
  from closed_phase [OF cfg c0 len]
  have n: "length (executeEach ?xs ?w) = 80"
    and o: "openWorld ''k'' 0 80 80 (run ?xs ?w)"
    by (simp_all add: last_map flip: length_map [of summary])
  obtain out w' where e: "execute noOverrides 81 81 (failingCommand ''k'' 80 50 0) () (run ?xs ?w)
      = (out, w')"
    by (cases "execute noOverrides 81 81 (failingCommand ''k'' 80 50 0) () (run ?xs ?w)")
  from execute_openWorld [OF o e]
  have "summary (out, calls_since (run ?xs ?w) w') = (Resolved ''FALLBACK'', 1, 1)"
    by simp
  with e n show ?thesis
    unfolding split by (simp add: executeEach_append nth_append)
qed

text \<open>
  C3, amended. On a fresh key with no override for it and the key not forced open, with
  requestVolumeThreshold 80, errorThresholdPercentage 50, an action that always rejects, no
  error filter and a fallback that always resolves to FALLBACK, and a sleep window that has not
  elapsed when any of the calls after the 80th starts: each of the calls 1 to 80 invokes the
  action once and the fallback once, each of the calls 81 to 100 invokes the fallback once and
  not the action, and every call resolves to FALLBACK; 80 action calls and 100 fallback calls
  in all.
\<close>

theorem hundred_failing_calls:
  assumes "CircuitInstancesDictionary w k = None"
      and "\<not> cfg_forceOpen cfg k" "cfg_requestVolumeThreshold cfg k = None"
          "cfg_errorPercentageThreshold cfg k = None" "cfg_sleepWindowInMilliseconds cfg k = None"
      and "length ts = 100"
      and "\<forall>t \<in> set (drop 80 ts). fst t \<le> snd (ts ! 79) + sw"
  shows "map summary (executeEach (scenario cfg k sw ts) w)
           = replicate 80 (Resolved ''FALLBACK'', 1, 1) @ replicate 20 (Resolved ''FALLBACK'', 0, 1) \<and>
         length (filter is_ActionCalled (calls_since w (run (scenario cfg k sw ts) w))) = 80 \<and>
         length (filter is_FallbackCalled (calls_since w (run (scenario cfg k sw ts) w))) = 100"
proof -
  let ?xs = "scenario cfg k sw (take 80 ts)"
  let ?ys = "scenario cfg k sw (drop 80 ts)"
  have split: "scenario cfg k sw ts = ?xs @ ?ys"
    unfolding scenario_def by (simp flip: map_append)
  have c0: "closedWorld k sw 0 w"
    using assms(1) by (simp add: closedWorld_def)
  have len: "0 + length (take 80 ts) \<le> 80"
    by simp
  have ne: "take 80 ts \<noteq> []"
    using assms(6) by auto
  have l: "last (take 80 ts) = ts ! 79"
    using last_conv_nth [OF ne] assms(6) by simp
  from closed_phase [OF assms(2-5) c0 len] assms(6) l ne
  have first: "map summary (executeEach ?xs w) = replicate 80 (Resolved ''FALLBACK'', 1, 1)"
    and o: "openWorld k sw (snd (ts ! 79) + sw) 80 (run ?xs w)"
    by simp_all
  from open_phase [OF o assms(7), of cfg] assms(6)
  have rest: "map summary (executeEach ?ys (run ?xs w)) = replicate 20 (Resolved ''FALLBACK'', 0, 1)"
    by simp
  have all: "map summary (executeEach (scenario cfg k sw ts) w)
           = replicate 80 (Resolved ''FALLBACK'', 1, 1) @ replicate 20 (Resolved ''FALLBACK'', 0, 1)"
    unfolding split by (simp add: executeEach_append first rest)
  from summary_totals [OF all] all show ?thesis
    by (simp add: calls_since_run)
qed

theorem hundred_failing_calls_witness:
  "map summary
     (executeEach (scenario noOverrides ''test_2'' 86400000 (replicate 100 (0, 0))) emptyWorld)
   = replicate 80 (Resolved ''FALLBACK'', 1, 1) @ replicate 20 (Resolved ''FALLBACK'', 0, 1)"
proof -
  have h1: "CircuitInstancesDictionary (emptyWorld :: (unit, string) World) ''test_2'' = None"
    by (simp add: emptyWorld_def)
  have h2: "\<not> cfg_forceOpen noOverrides ''test_2''"
      "cfg_requestVolumeThreshold noOverrides ''test_2'' = None"
      "cfg_errorPercentageThreshold noOverrides ''test_2'' = None"
      "cfg_sleepWindowInMilliseconds noOverrides ''test_2'' = None"
    by (simp_all add: noOverrides_def)
  have h3: "length (replicate 100 (0 :: int, 0 :: int)) = 100"
    by simp
  have h4: "\<forall>t \<in> set (drop 80 (replicate 100 (0 :: int, 0 :: int))).
      fst t \<le> snd (replicate 100 (0 :: int, 0 :: int) ! 79) + 86400000"
    by simp
  from hundred_failing_calls [OF h1 h2 h3 h4]
  show ?thesis by blast
qed

end
